theory Spec2Isabelle
  imports Complex_Main "HOL-Library.AList" "HOL-Library.Sublist"
begin

section \<open>DepthAI daemon: a shallow embedding of \<^verbatim>\<open>depthai_daemon.py\<close>\<close>

text \<open>
  Conventions used throughout.
  \<^item> Python \<^verbatim>\<open>int\<close> is \<^typ>\<open>int\<close>; Python \<^verbatim>\<open>float\<close> is idealised as \<^typ>\<open>real\<close>
    (no rounding). The only float operations of the modelled code are one subtraction, one
    reciprocal, a mean and two comparisons; where the idealisation matters it is said at
    the theorem.
  \<^item> A clock read (\<^verbatim>\<open>time.time()\<close>) inside a method is a parameter of the modelled
    function.
  \<^item> An exception of the source is a value \<open>Inl e\<close> of a sum type; the state is passed
    explicitly and returned updated.
  \<^item> An attribute that may hold Python's \<^verbatim>\<open>None\<close> is an \<open>option\<close>.
\<close>

datatype py_error = ZeroDivisionError | AttributeError | KeyError | TypeError | DeviceError


subsection \<open>\<^verbatim>\<open>DepthAIStats\<close>\<close>

text \<open>The attributes of \<^verbatim>\<open>DepthAIStats\<close> set by \<^verbatim>\<open>__init__\<close> (the lock apart).\<close>

record DepthAIStats =
  start_time :: real
  frame_count :: int
  error_count :: int
  last_frame_time :: real
  fps_history :: "real list"
  imu_data_count :: int
  temperature_history :: "real list"

definition DepthAIStats_init :: "real \<Rightarrow> DepthAIStats" where
  "DepthAIStats_init now =
     \<lparr>start_time = now, frame_count = 0, error_count = 0, last_frame_time = 0,
      fps_history = [], imu_data_count = 0, temperature_history = []\<rparr>"

text \<open>
  \<^verbatim>\<open>xs.append(v); if len(xs) > cap: xs.pop(0)\<close>, the idiom of both rolling windows.
  \<^verbatim>\<open>pop(0)\<close> is only reached on a list that has just been appended to, so it never
  raises.
\<close>

definition append_capped :: "nat \<Rightarrow> 'a \<Rightarrow> 'a list \<Rightarrow> 'a list" where
  "append_capped cap v xs = (let ys = xs @ [v] in if length ys > cap then tl ys else ys)"

text \<open>
  \<^verbatim>\<open>update_frame_stats\<close>; \<open>current_time\<close> is the value \<^verbatim>\<open>time.time()\<close> returns.
  The division \<^verbatim>\<open>1.0 / (current_time - self.last_frame_time)\<close> is unguarded: Python
  raises \<^verbatim>\<open>ZeroDivisionError\<close> on a zero divisor, before any attribute is assigned.
\<close>

definition update_frame_stats :: "real \<Rightarrow> DepthAIStats \<Rightarrow> py_error + DepthAIStats" where
  "update_frame_stats current_time s =
     (if last_frame_time s > 0 then
        (if current_time - last_frame_time s = 0 then Inl ZeroDivisionError
         else
           (let fps = 1 / (current_time - last_frame_time s)
            in Inr (s\<lparr>fps_history := append_capped 30 fps (fps_history s),
                      frame_count := frame_count s + 1,
                      last_frame_time := current_time\<rparr>)))
      else Inr (s\<lparr>frame_count := frame_count s + 1, last_frame_time := current_time\<rparr>))"

definition increment_error :: "DepthAIStats \<Rightarrow> DepthAIStats" where
  "increment_error s = s\<lparr>error_count := error_count s + 1\<rparr>"

definition update_imu_stats :: "DepthAIStats \<Rightarrow> DepthAIStats" where
  "update_imu_stats s = s\<lparr>imu_data_count := imu_data_count s + 1\<rparr>"

definition add_temperature_reading :: "real \<Rightarrow> DepthAIStats \<Rightarrow> DepthAIStats" where
  "add_temperature_reading temp_celsius s =
     s\<lparr>temperature_history := append_capped 60 temp_celsius (temperature_history s)\<rparr>"

text \<open>
  The dictionary \<^verbatim>\<open>get_stats\<close> returns has a fixed set of keys, so it is a record whose
  fields are the keys. Three keys share their name with an attribute of the class and
  carry the prefix \<open>stat_\<close> here. The key \<^verbatim>\<open>uptime_formatted\<close> (a rendering of
  \<open>uptime_seconds\<close>) is left out, and \<^verbatim>\<open>last_frame_time\<close> is kept as the time stamp
  that the source renders in ISO format. \<^verbatim>\<open>None\<close> is \<open>None\<close>.
\<close>

record stats_snapshot =
  uptime_seconds :: real
  total_frames :: int
  stat_error_count :: int
  current_fps :: real
  average_fps :: real
  stat_imu_data_count :: int
  average_temperature_c :: "real option"
  current_temperature_c :: "real option"
  stat_last_frame_time :: real

definition get_stats :: "real \<Rightarrow> DepthAIStats \<Rightarrow> stats_snapshot" where
  "get_stats now s =
     (let uptime = now - start_time s;
          avg_fps = (if fps_history s \<noteq> []
                     then sum_list (fps_history s) / real (length (fps_history s)) else 0);
          avg_temp = (if temperature_history s \<noteq> []
                      then Some (sum_list (temperature_history s)
                                  / real (length (temperature_history s)))
                      else None)
      in \<lparr>uptime_seconds = uptime,
          total_frames = frame_count s,
          stat_error_count = error_count s,
          current_fps = (if fps_history s \<noteq> [] then last (fps_history s) else 0),
          average_fps = avg_fps,
          stat_imu_data_count = imu_data_count s,
          average_temperature_c = avg_temp,
          current_temperature_c =
            (if temperature_history s \<noteq> [] then Some (last (temperature_history s))
             else None),
          stat_last_frame_time = last_frame_time s\<rparr>)"

text \<open>
  A run of \<^verbatim>\<open>update_frame_stats\<close> calls, one per clock value, stopping at the first
  exception as the caller's \<^verbatim>\<open>try\<close> block would see it.
\<close>

fun update_frame_stats_calls :: "real list \<Rightarrow> DepthAIStats \<Rightarrow> py_error + DepthAIStats" where
  "update_frame_stats_calls [] s = Inr s"
| "update_frame_stats_calls (t # ts) s =
     (case update_frame_stats t s of
        Inl e \<Rightarrow> Inl e
      | Inr s' \<Rightarrow> update_frame_stats_calls ts s')"


text \<open>
  What the claims about the two windows are stated against. \<open>last_n n xs\<close> is the list of
  the last \<open>n\<close> entries of \<open>xs\<close>, in their order (all of \<open>xs\<close> when it is shorter).
  \<open>frame_rates ts\<close> lists, in call order, the rate \<open>1 / (now - previous)\<close> of every call
  at \<open>now\<close> whose predecessor was made at a positive clock value \<open>previous\<close> (the
  source's test for a previous frame is \<^verbatim>\<open>self.last_frame_time > 0\<close>); \<open>rates_after prev ts\<close>
  is the same for calls that follow a call at \<open>prev\<close>.
\<close>

definition last_n :: "nat \<Rightarrow> 'a list \<Rightarrow> 'a list" where
  "last_n n xs = drop (length xs - n) xs"

definition rates_after :: "real \<Rightarrow> real list \<Rightarrow> real list" where
  "rates_after prev ts =
     map (\<lambda>(a, b). 1 / (b - a)) (filter (\<lambda>(a, b). a > 0) (zip (prev # ts) ts))"

definition frame_rates :: "real list \<Rightarrow> real list" where
  "frame_rates ts =
     map (\<lambda>(a, b). 1 / (b - a)) (filter (\<lambda>(a, b). a > 0) (zip ts (tl ts)))"


subsection \<open>\<^verbatim>\<open>HealthMonitor._check_health\<close>\<close>

text \<open>
  The verdict dictionary \<^verbatim>\<open>{"status": ..., "issues": [...]}\<close>. An issue is a string in the
  source; the second one embeds the formatted error rate
  (\<^verbatim>\<open>f"High error rate: {error_rate:.2%}"\<close>), which is kept here as the rate itself.
\<close>

datatype health_status = healthy | degraded

datatype issue = Low_or_no_frame_rate | High_error_rate real

record health =
  status :: health_status
  issues :: "issue list"

definition check_health :: "stats_snapshot \<Rightarrow> health" where
  "check_health stats =
     (let issues1 = (if current_fps stats < 1 \<and> total_frames stats > 0
                     then [Low_or_no_frame_rate] else []);
          issues2 = (if total_frames stats > 0
                     then (let error_rate = real_of_int (stat_error_count stats)
                                             / real_of_int (total_frames stats)
                           in if error_rate > 1 / 10
                              then issues1 @ [High_error_rate error_rate] else issues1)
                     else issues1)
      in \<lparr>status = (if issues2 \<noteq> [] then degraded else healthy), issues = issues2\<rparr>)"


subsection \<open>\<^verbatim>\<open>DepthAIConfig\<close>\<close>

text \<open>
  What \<^verbatim>\<open>json.load\<close> returns. A Python \<^verbatim>\<open>dict\<close> keeps its keys in insertion order, so
  it is an association list; \<^verbatim>\<open>d[k] = v\<close> is \<^const>\<open>AList.update\<close> (in place for a key
  that is there, appended otherwise) and \<^verbatim>\<open>d[k]\<close> is \<^const>\<open>map_of\<close>.
\<close>

datatype json = JNull | JBool bool | JInt int | JFloat real | JStr string
  | JArr "json list" | JObj "(string \<times> json) list"

type_synonym dict = "(string \<times> json) list"

fun isinstance_dict :: "json \<Rightarrow> bool" where
  "isinstance_dict (JObj d) = True"
| "isinstance_dict v = False"

fun dict_items :: "json \<Rightarrow> dict" where
  "dict_items (JObj d) = d"
| "dict_items v = []"

text \<open>
  \<^verbatim>\<open>_merge_config(default, user)\<close>: \<open>result\<close> starts as the copy of \<open>default\<close> and the
  second argument is what is left of \<^verbatim>\<open>user.items()\<close>. \<^verbatim>\<open>result[key]\<close> is only read
  behind \<^verbatim>\<open>key in result\<close>.
\<close>

function merge_config :: "dict \<Rightarrow> dict \<Rightarrow> dict" where
  "merge_config result [] = result"
| "merge_config result ((key, value) # items) =
     (if map_of result key \<noteq> None \<and> isinstance_dict (the (map_of result key))
         \<and> isinstance_dict value
      then merge_config
             (AList.update key
                (JObj (merge_config (dict_items (the (map_of result key))) (dict_items value)))
                result)
             items
      else merge_config (AList.update key value result) items)"
  by pat_completeness auto
termination
proof (relation "measure (\<lambda>(result, items). size_list (size_prod (\<lambda>_. 0) size) items)")
  show "wf (measure (\<lambda>(result, items). size_list (size_prod (\<lambda>_. 0) size) items))"
    by simp
next
  fix result :: dict and key :: string and "value" :: json and items :: dict
  assume "map_of result key \<noteq> None \<and> isinstance_dict (the (map_of result key))
         \<and> isinstance_dict value"
  then show "((dict_items (the (map_of result key)), dict_items value), result, (key, value) # items)
      \<in> measure (\<lambda>(result, items). size_list (size_prod (\<lambda>_. 0) size) items)"
    by (cases "value") simp_all
qed simp_all

text \<open>The value the loop body of \<^verbatim>\<open>_merge_config\<close> stores under \<open>key\<close>.\<close>

definition merged_value :: "json option \<Rightarrow> json \<Rightarrow> json" where
  "merged_value dv uv =
     (if dv \<noteq> None \<and> isinstance_dict (the dv) \<and> isinstance_dict uv
      then JObj (merge_config (dict_items (the dv)) (dict_items uv)) else uv)"

text \<open>
  Reading a nested key \<^verbatim>\<open>v[k1][k2]...\<close> (\<open>None\<close> where a key is missing or the value
  is no dictionary), and the well-formedness of a parsed document: a \<^verbatim>\<open>dict\<close> holds a
  key once.
\<close>

fun lookup_path :: "json \<Rightarrow> string list \<Rightarrow> json option" where
  "lookup_path v [] = Some v"
| "lookup_path (JObj d) (k # ks) =
     (case map_of d k of None \<Rightarrow> None | Some v \<Rightarrow> lookup_path v ks)"
| "lookup_path v (k # ks) = None"

fun distinct_keys :: "json \<Rightarrow> bool" where
  "distinct_keys (JObj d) =
     (distinct (map fst d) \<and> list_all (\<lambda>kv. distinct_keys (snd kv)) d)"
| "distinct_keys v = True"

definition DEFAULT_CONFIG :: dict where
  "DEFAULT_CONFIG =
     [(''camera'', JObj
        [(''rgb_resolution'', JArr [JInt 1920, JInt 1080]),
         (''rgb_fps'', JInt 30),
         (''mono_resolution'', JArr [JInt 640, JInt 400]),
         (''mono_fps'', JInt 30),
         (''depth_enabled'', JBool True),
         (''preview_size'', JArr [JInt 640, JInt 480]),
         (''imu_enabled'', JBool True),
         (''imu_frequency'', JInt 100)]),
      (''ai'', JObj
        [(''model_enabled'', JBool False),
         (''model_path'', JStr []),
         (''model_name'', JStr ''mobilenet-ssd''),
         (''confidence_threshold'', JFloat (1 / 2))]),
      (''output'', JObj
        [(''save_frames'', JBool False),
         (''output_directory'', JStr ''/tmp/depthai-frames''),
         (''max_files'', JInt 1000),
         (''stream_enabled'', JBool False),
         (''stream_port'', JInt 8080),
         (''rtsp_enabled'', JBool False),
         (''rtsp_port'', JInt 8554)]),
      (''service'', JObj
        [(''health_check_interval'', JInt 30),
         (''max_reconnect_attempts'', JInt 5),
         (''reconnect_delay'', JInt 10),
         (''log_level'', JStr ''INFO''),
         (''stats_interval'', JInt 60)])]"

text \<open>
  The configuration file as \<^verbatim>\<open>load_config\<close> sees it: absent, unparsable, or holding a
  JSON value. \<^verbatim>\<open>load_config\<close> merges a parsed dictionary over the defaults; every
  exception (a parse error, or \<^verbatim>\<open>user.items()\<close> on a value that is no dictionary) is
  caught and answered with the defaults; a missing file is first written with the
  defaults.
\<close>

datatype file_content = Unparsable | Parsed json

type_synonym config_files = "string \<rightharpoonup> file_content"

definition load_config :: "string \<Rightarrow> config_files \<Rightarrow> dict \<times> config_files" where
  "load_config path files =
     (case files path of
        Some (Parsed v) \<Rightarrow>
          (if isinstance_dict v then (merge_config DEFAULT_CONFIG (dict_items v), files)
           else (DEFAULT_CONFIG, files))
      | Some Unparsable \<Rightarrow> (DEFAULT_CONFIG, files)
      | None \<Rightarrow> (DEFAULT_CONFIG, files(path \<mapsto> Parsed (JObj DEFAULT_CONFIG))))"

text \<open>\<^verbatim>\<open>cfg[section][key]\<close> on a configuration dictionary.\<close>

definition config_item :: "dict \<Rightarrow> string \<Rightarrow> string \<Rightarrow> py_error + json" where
  "config_item cfg sect key =
     (case map_of cfg sect of
        None \<Rightarrow> Inl KeyError
      | Some (JObj d) \<Rightarrow> (case map_of d key of None \<Rightarrow> Inl KeyError | Some v \<Rightarrow> Inr v)
      | Some v \<Rightarrow> Inl TypeError)"


subsection \<open>Objects and references: \<^verbatim>\<open>_reload_config\<close>\<close>

text \<open>
  \<^verbatim>\<open>DepthAIDaemon.__init__\<close> creates one \<^verbatim>\<open>DepthAIConfig\<close> object and hands the same
  reference to \<^verbatim>\<open>HealthMonitor.__init__\<close>, which stores it in its own attribute. Which
  object an attribute refers to decides what a later read sees, so the objects live in a
  store (a reference is an index into it) and the attributes hold references.
\<close>

record DepthAIConfig =
  config_path :: string
  config :: dict

type_synonym ref = nat

record HealthMonitor =
  monitor_config :: ref
  monitor_running :: bool

record DepthAIDaemon =
  daemon_config :: ref
  health_monitor :: HealthMonitor

record process =
  files :: config_files
  objects :: "DepthAIConfig list"
  daemon :: DepthAIDaemon

text \<open>\<^verbatim>\<open>DepthAIConfig(path)\<close>: a new object, whose reference is returned.\<close>

definition DepthAIConfig_new :: "string \<Rightarrow> config_files \<Rightarrow> DepthAIConfig list
    \<Rightarrow> ref \<times> config_files \<times> DepthAIConfig list" where
  "DepthAIConfig_new path fs objs =
     (let (cfg, fs') = load_config path fs
      in (length objs, fs', objs @ [\<lparr>config_path = path, config = cfg\<rparr>]))"

definition DepthAIDaemon_new :: "string \<Rightarrow> config_files \<Rightarrow> process" where
  "DepthAIDaemon_new path fs =
     (let (r, fs', objs) = DepthAIConfig_new path fs []
      in \<lparr>files = fs', objects = objs,
          daemon = \<lparr>daemon_config = r,
                    health_monitor = \<lparr>monitor_config = r, monitor_running = True\<rparr>\<rparr>\<rparr>)"

text \<open>
  \<^verbatim>\<open>_reload_config\<close>: \<^verbatim>\<open>self.config = DepthAIConfig(self.config.config_path)\<close> rebinds
  the daemon's attribute to a new object. Nothing else is assigned.
\<close>

definition reload_config :: "process \<Rightarrow> process" where
  "reload_config p =
     (let path = config_path (objects p ! daemon_config (daemon p));
          (r, fs', objs) = DepthAIConfig_new path (files p) (objects p)
      in p\<lparr>files := fs', objects := objs, daemon := (daemon p)\<lparr>daemon_config := r\<rparr>\<rparr>)"

text \<open>
  The two reads the claim names: \<^verbatim>\<open>_monitor_loop\<close> evaluates
  \<^verbatim>\<open>self.config.config["service"]["health_check_interval"]\<close> with \<open>self\<close> the monitor, and
  the dispatch loop's handlers evaluate \<^verbatim>\<open>self.config.config["output"][...]\<close> (here
  any section and key) with \<open>self\<close> the daemon.
\<close>

definition monitor_reads :: "process \<Rightarrow> string \<Rightarrow> string \<Rightarrow> py_error + json" where
  "monitor_reads p sect key =
     config_item (config (objects p ! monitor_config (health_monitor (daemon p)))) sect key"

definition daemon_reads :: "process \<Rightarrow> string \<Rightarrow> string \<Rightarrow> py_error + json" where
  "daemon_reads p sect key =
     config_item (config (objects p ! daemon_config (daemon p))) sect key"

text \<open>An operator edits the configuration file between start and reload.\<close>

definition write_config_file :: "string \<Rightarrow> json \<Rightarrow> process \<Rightarrow> process" where
  "write_config_file path v p = p\<lparr>files := (files p)(path \<mapsto> Parsed v)\<rparr>"


subsection \<open>\<^verbatim>\<open>DepthAIDaemon.run\<close>: the supervisor loop\<close>

text \<open>
  What the supervisor loop reads and writes: \<^verbatim>\<open>self.running\<close>,
  \<^verbatim>\<open>self.available_features\<close>, the error counter of \<^verbatim>\<open>self.stats\<close>, and the log, whose
  entries stand for the \<^verbatim>\<open>logging\<close> calls of \<^verbatim>\<open>run\<close> in the order they are made.
\<close>

datatype log_entry =
    Creating_pipeline | Connecting_to_device | Connected_to_device
  | Starting_frame_processing | Device_error int int | Retrying
  | Max_attempts_or_shutdown | Daemon_stopped

record supervisor =
  running :: bool
  available_features :: "(string \<rightharpoonup> bool) option"
  stats_errors :: int
  log :: "log_entry list"

text \<open>
  What the outside world decides in one pass of the loop: whether
  \<^verbatim>\<open>dai.Device(self.pipeline)\<close> returns a device or raises, and whether a termination
  signal is handled during the pass. The handler (\<^verbatim>\<open>_signal_handler\<close>, which clears
  \<^verbatim>\<open>self.running\<close>) is taken to run while \<^verbatim>\<open>_process_frames\<close> runs or, in a pass that
  raises, before the \<^verbatim>\<open>except\<close> clause reads \<^verbatim>\<open>self.running\<close>.
\<close>

record attempt_env =
  device_connects :: bool
  shutdown_signal :: bool

datatype attempt_result = Raised py_error | Completed | Never_returns

text \<open>The value \<^verbatim>\<open>__init__\<close> gives \<^verbatim>\<open>self.available_features\<close>.\<close>

definition initial_features :: "string \<rightharpoonup> bool" where
  "initial_features =
     [''imu'' \<mapsto> False, ''depth'' \<mapsto> True, ''rgb'' \<mapsto> True, ''ir'' \<mapsto> False]"

text \<open>
  \<^verbatim>\<open>_detect_device_features\<close> fills a local dictionary \<open>features\<close>, catches every
  exception, and ends without a \<^verbatim>\<open>return\<close> statement: the call evaluates to
  \<^verbatim>\<open>None\<close> on every path.
\<close>

definition detect_device_features :: "string \<Rightarrow> (string \<rightharpoonup> bool) option" where
  "detect_device_features device = None"

text \<open>
  \<^verbatim>\<open>self.available_features.get(key, dflt)\<close>: on \<^verbatim>\<open>None\<close> the attribute lookup
  \<^verbatim>\<open>.get\<close> raises \<^verbatim>\<open>AttributeError\<close>.
\<close>

definition features_get :: "(string \<rightharpoonup> bool) option \<Rightarrow> string \<Rightarrow> bool \<Rightarrow> py_error + bool" where
  "features_get features key dflt =
     (case features of
        None \<Rightarrow> Inl AttributeError
      | Some f \<Rightarrow> Inr (case f key of None \<Rightarrow> dflt | Some b \<Rightarrow> b))"

text \<open>
  \<^verbatim>\<open>_create_pipeline\<close>, as far as it can raise on the daemon's own state: the condition
  \<^verbatim>\<open>imu_enabled and self.available_features.get("imu", False)\<close> stands outside the
  method's inner \<^verbatim>\<open>try\<close>. The pipeline object is opaque.
\<close>

definition create_pipeline :: "bool \<Rightarrow> supervisor \<Rightarrow> py_error + unit" where
  "create_pipeline imu_enabled d =
     (if imu_enabled
      then (case features_get (available_features d) ''imu'' False of
              Inl e \<Rightarrow> Inl e | Inr b \<Rightarrow> Inr ())
      else Inr ())"

definition logs :: "log_entry \<Rightarrow> supervisor \<Rightarrow> supervisor" where
  "logs e d = d\<lparr>log := log d @ [e]\<rparr>"

definition signal_handler :: "bool \<Rightarrow> supervisor \<Rightarrow> supervisor" where
  "signal_handler arrives d = (if arrives then d\<lparr>running := False\<rparr> else d)"

text \<open>
  \<^verbatim>\<open>_process_frames\<close> catches every exception inside its \<^verbatim>\<open>while self.running\<close> loop,
  so it returns only once \<^verbatim>\<open>self.running\<close> is false and never raises.
\<close>

definition process_frames :: "attempt_env \<Rightarrow> supervisor \<Rightarrow> attempt_result \<times> supervisor" where
  "process_frames env d =
     (let d1 = signal_handler (shutdown_signal env) d
      in if running d1 then (Never_returns, d1) else (Completed, d1))"

text \<open>
  The \<^verbatim>\<open>try\<close> block of one pass. The second component is the value of the local
  \<open>reconnect_attempts\<close> afterwards: it is assigned 0 only on the line that follows
  \<^verbatim>\<open>"Starting frame processing..."\<close>. The temperature reading and the opening of the
  output queues, which stand between the \<^verbatim>\<open>.get("temperature", False)\<close> and that line,
  touch none of the state kept here and are left out.
\<close>

definition try_body :: "bool \<Rightarrow> attempt_env \<Rightarrow> int \<Rightarrow> supervisor
    \<Rightarrow> attempt_result \<times> int \<times> supervisor" where
  "try_body imu_enabled env reconnect_attempts d =
     (let d1 = logs Creating_pipeline d in
      case create_pipeline imu_enabled d1 of
        Inl e \<Rightarrow> (Raised e, reconnect_attempts, d1)
      | Inr pipeline \<Rightarrow>
          (let d2 = logs Connecting_to_device d1 in
           if \<not> device_connects env then (Raised DeviceError, reconnect_attempts, d2)
           else
             (let d3 = logs Connected_to_device d2;
                  d4 = d3\<lparr>available_features := detect_device_features ''device''\<rparr>
              in case features_get (available_features d4) ''temperature'' False of
                   Inl e \<Rightarrow> (Raised e, reconnect_attempts, d4)
                 | Inr temperature \<Rightarrow>
                     (let d5 = logs Starting_frame_processing d4;
                          (r, d6) = process_frames env d5
                      in (r, 0, d6)))))"

datatype run_result = Returned int supervisor | Streaming int supervisor

text \<open>
  The \<^verbatim>\<open>while self.running and reconnect_attempts < max_attempts\<close> loop with its
  \<^verbatim>\<open>except Exception\<close> clause; \<open>env i\<close> is the outside world during pass \<open>i\<close>.
  \<open>Streaming\<close> is the run that stays in \<^verbatim>\<open>_process_frames\<close> for ever.
\<close>

function run_loop :: "int \<Rightarrow> bool \<Rightarrow> (nat \<Rightarrow> attempt_env) \<Rightarrow> nat \<Rightarrow> int \<Rightarrow> supervisor
    \<Rightarrow> run_result" where
  "run_loop max_attempts imu_enabled env i reconnect_attempts d =
     (if running d \<and> reconnect_attempts < max_attempts then
        (case try_body imu_enabled (env i) reconnect_attempts d of
           (Never_returns, n, d') \<Rightarrow> Streaming n d'
         | (Completed, n, d') \<Rightarrow> run_loop max_attempts imu_enabled env (Suc i) n d'
         | (Raised e, n, d') \<Rightarrow>
             (let n' = n + 1;
                  d1 = logs (Device_error n' max_attempts) d';
                  d2 = d1\<lparr>stats_errors := stats_errors d1 + 1\<rparr>;
                  d3 = signal_handler (shutdown_signal (env i)) d2
              in if n' < max_attempts \<and> running d3
                 then run_loop max_attempts imu_enabled env (Suc i) n' (logs Retrying d3)
                 else Returned n' (logs Max_attempts_or_shutdown d3)))
      else Returned reconnect_attempts d)"
  by pat_completeness auto
termination
proof (relation "measure (\<lambda>(m, imu, env, i, n, d). if running d then nat (m - n) else 0)")
qed (auto simp: logs_def try_body_def process_frames_def signal_handler_def Let_def
       split: sum.splits if_splits prod.splits)

declare run_loop.simps [simp del]

definition initial_supervisor :: supervisor where
  "initial_supervisor =
     \<lparr>running = True, available_features = Some initial_features, stats_errors = 0,
      log = []\<rparr>"

definition run :: "int \<Rightarrow> bool \<Rightarrow> (nat \<Rightarrow> attempt_env) \<Rightarrow> supervisor \<Rightarrow> run_result" where
  "run max_attempts imu_enabled env d =
     (case run_loop max_attempts imu_enabled env 0 0 d of
        Returned n d' \<Rightarrow> Returned n (logs Daemon_stopped d')
      | Streaming n d' \<Rightarrow> Streaming n d')"


subsection \<open>Artifacts on disk: \<^verbatim>\<open>_save_frame\<close>, \<^verbatim>\<open>_save_imu_data\<close>, \<^verbatim>\<open>_cleanup_old_files\<close>\<close>

text \<open>
  The part of the file system the daemon writes artifacts to: a list of entries in the
  order a directory listing yields them, each with its directory, its name and the time
  \<^verbatim>\<open>os.path.getctime\<close> reports for it.
\<close>

record file_entry =
  file_dir :: string
  file_name :: string
  ctime :: real

type_synonym filesystem = "file_entry list"

definition file_path :: "file_entry \<Rightarrow> string \<times> string" where
  "file_path f = (file_dir f, file_name f)"

definition path_join :: "string \<Rightarrow> string \<Rightarrow> string" where
  "path_join a b = a @ ''/'' @ b"

text \<open>
  Writing a file (\<^verbatim>\<open>cv2.imwrite\<close>, \<^verbatim>\<open>open(filepath, 'w')\<close>) at clock value \<open>now\<close>: a new
  entry, or the entry of that path with its time set to \<open>now\<close>.
\<close>

definition write_file :: "string \<Rightarrow> string \<Rightarrow> real \<Rightarrow> filesystem \<Rightarrow> filesystem" where
  "write_file dir name now fs =
     (if \<exists>f \<in> set fs. file_dir f = dir \<and> file_name f = name
      then map (\<lambda>f. if file_dir f = dir \<and> file_name f = name then f\<lparr>ctime := now\<rparr> else f) fs
      else fs @ [\<lparr>file_dir = dir, file_name = name, ctime = now\<rparr>])"

definition endswith :: "string \<Rightarrow> string \<Rightarrow> bool" where
  "endswith s ext = (length ext \<le> length s \<and> drop (length s - length ext) s = ext)"

text \<open>\<^verbatim>\<open>Path(directory).glob("*" + ext)\<close>: the entries of that directory (not below it).\<close>

definition glob_suffix :: "string \<Rightarrow> string \<Rightarrow> filesystem \<Rightarrow> file_entry list" where
  "glob_suffix dir ext fs = filter (\<lambda>f. file_dir f = dir \<and> endswith (file_name f) ext) fs"

text \<open>
  The slice \<^verbatim>\<open>xs[:stop]\<close>: a negative \<open>stop\<close> counts from the end, and \<^verbatim>\<open>-0\<close> is \<open>0\<close>,
  so \<^verbatim>\<open>xs[:-0]\<close> is empty.
\<close>

definition slice_upto :: "'a list \<Rightarrow> int \<Rightarrow> 'a list" where
  "slice_upto xs stop =
     (let n = int (length xs);
          j = (if stop < 0 then max 0 (stop + n) else min stop n)
      in take (nat j) xs)"

definition unlink :: "file_entry \<Rightarrow> filesystem \<Rightarrow> filesystem" where
  "unlink f fs = filter (\<lambda>g. \<not> (file_dir g = file_dir f \<and> file_name g = file_name f)) fs"

text \<open>
  \<^verbatim>\<open>_cleanup_old_files\<close>, with \<open>max_files\<close> the value of
  \<^verbatim>\<open>config["output"]["max_files"]\<close>. \<^verbatim>\<open>sorted\<close> is stable, as \<^const>\<open>sort_key\<close> is.
\<close>

definition cleanup_old_files :: "int \<Rightarrow> string \<Rightarrow> filesystem \<Rightarrow> filesystem" where
  "cleanup_old_files max_files directory fs =
     (let files = sort_key ctime (glob_suffix directory ''.jpg'' fs)
      in if int (length files) > max_files
         then fold unlink (slice_upto files (- max_files)) fs
         else fs)"

text \<open>The format \<^verbatim>\<open>{frame_count:06d}\<close> of a non-negative number.\<close>

fun decimal :: "nat \<Rightarrow> string" where
  "decimal n = (if n < 10 then [''0123456789'' ! n]
                else decimal (n div 10) @ [''0123456789'' ! (n mod 10)])"

declare decimal.simps [simp del]

definition format_06d :: "nat \<Rightarrow> string" where
  "format_06d n = replicate (6 - length (decimal n)) (CHR ''0'') @ decimal n"

text \<open>
  \<^verbatim>\<open>_save_frame\<close>: \<open>timestamp\<close> is the text \<^verbatim>\<open>strftime\<close> returns and \<open>now\<close> the time the
  file system gives the file. The sweep follows every write.
\<close>

definition save_frame :: "string \<Rightarrow> int \<Rightarrow> string \<Rightarrow> string \<Rightarrow> nat \<Rightarrow> real \<Rightarrow> filesystem
    \<Rightarrow> filesystem" where
  "save_frame output_dir max_files frame_type timestamp frame_number now fs =
     (let filename = frame_type @ ''_'' @ timestamp @ ''_'' @ format_06d frame_number @ ''.jpg''
      in cleanup_old_files max_files output_dir (write_file output_dir filename now fs))"

text \<open>
  \<^verbatim>\<open>_save_imu_data\<close>: the packet goes to \<^verbatim>\<open>{output_dir}/imu/imu_{timestamp}.json\<close>. The
  method calls no sweep and reads no \<open>max_files\<close>.
\<close>

definition save_imu_data :: "string \<Rightarrow> string \<Rightarrow> real \<Rightarrow> filesystem \<Rightarrow> filesystem" where
  "save_imu_data output_dir timestamp now fs =
     (let imu_dir = path_join output_dir ''imu'';
          filename = ''imu_'' @ timestamp @ ''.json''
      in write_file imu_dir filename now fs)"


subsection \<open>The status file: \<^verbatim>\<open>HealthMonitor._update_status\<close>\<close>

text \<open>
  \<^verbatim>\<open>json.dump(status, f, indent=2)\<close> of the dictionary with the keys \<open>timestamp\<close>,
  \<open>status\<close>, \<open>pid\<close>, \<open>stats\<close>, \<open>health\<close>, in that order. The arguments are the texts
  \<^verbatim>\<open>json.dump\<close> produces for the four values that vary (number formatting is not
  modelled); the layout around them is the one \<open>indent=2\<close> gives.
\<close>

definition quoted :: "string \<Rightarrow> string" where
  "quoted k = CHR 0x22 # k @ [CHR 0x22]"

definition required_keys :: "string list" where
  "required_keys = [''timestamp'', ''status'', ''pid'', ''stats'', ''health'']"

definition status_segments :: "string \<Rightarrow> string \<Rightarrow> string \<Rightarrow> string \<Rightarrow> string list" where
  "status_segments timestamp pid stats health =
     [''{'', [CHR 0x0A], ''  '', quoted ''timestamp'', '': '', timestamp, '','', [CHR 0x0A],
      ''  '', quoted ''status'', '': '', quoted ''running'', '','', [CHR 0x0A],
      ''  '', quoted ''pid'', '': '', pid, '','', [CHR 0x0A],
      ''  '', quoted ''stats'', '': '', stats, '','', [CHR 0x0A],
      ''  '', quoted ''health'', '': '', health, [CHR 0x0A], ''}'']"

definition status_text :: "string \<Rightarrow> string \<Rightarrow> string \<Rightarrow> string \<Rightarrow> string" where
  "status_text timestamp pid stats health =
     concat (status_segments timestamp pid stats health)"

text \<open>
  \<^verbatim>\<open>with open(self.status_file, 'w') as f: json.dump(...)\<close>. Opening in mode \<^verbatim>\<open>'w'\<close>
  truncates the file at once; the text then reaches the file in the pieces in which the
  buffered writer flushes it (\<open>chunks\<close>, the last flush being the one at the end of the
  \<^verbatim>\<open>with\<close> block). \<open>update_status\<close> lists the contents of the status path in the order a
  reader polling it can find them, from the \<^verbatim>\<open>open\<close> on.
\<close>

definition open_w :: "string option \<Rightarrow> string" where
  "open_w old = []"

fun write_chunks :: "string \<Rightarrow> string list \<Rightarrow> string list" where
  "write_chunks content [] = []"
| "write_chunks content (c # cs) = (content @ c) # write_chunks (content @ c) cs"

definition update_status :: "string option \<Rightarrow> string list \<Rightarrow> string list" where
  "update_status old chunks = (let c0 = open_w old in c0 # write_chunks c0 chunks)"

text \<open>
  What a reader needs of the file's contents to find every top-level key: the quoted key
  occurs in it.
\<close>

definition has_required_keys :: "string \<Rightarrow> bool" where
  "has_required_keys content = list_all (\<lambda>k. sublist (quoted k) content) required_keys"


section \<open>Properties\<close>

subsection \<open>Statistics\<close>

lemma length_append_capped: "length xs \<le> cap \<Longrightarrow> length (append_capped cap v xs) \<le> cap"
  by (simp add: append_capped_def Let_def)

lemma update_frame_stats_Inr:
  assumes "last_frame_time s \<le> 0 \<or> last_frame_time s < t"
  shows "\<exists>s'. update_frame_stats t s = Inr s' \<and> frame_count s' = frame_count s + 1
           \<and> last_frame_time s' = t
           \<and> (length (fps_history s) \<le> 30 \<longrightarrow> length (fps_history s') \<le> 30)
           \<and> temperature_history s' = temperature_history s"
  using assms by (auto simp: update_frame_stats_def Let_def length_append_capped)

lemma update_frame_stats_calls_increasing:
  assumes "sorted_wrt (<) ts"
    and "last_frame_time s \<le> 0 \<or> (\<forall>t \<in> set ts. last_frame_time s < t)"
    and "length (fps_history s) \<le> 30"
  shows "\<exists>s'. update_frame_stats_calls ts s = Inr s'
           \<and> frame_count s' = frame_count s + int (length ts)
           \<and> length (fps_history s') \<le> 30"
  using assms
proof (induction ts arbitrary: s)
  case Nil
  then show ?case by simp
next
  case (Cons t ts)
  from Cons.prems(2) have "last_frame_time s \<le> 0 \<or> last_frame_time s < t"
    by auto
  from update_frame_stats_Inr [OF this] Cons.prems(3)
  obtain s1 where s1: "update_frame_stats t s = Inr s1"
      "frame_count s1 = frame_count s + 1" "last_frame_time s1 = t"
      "length (fps_history s1) \<le> 30"
    by blast
  from Cons.prems(1) have "sorted_wrt (<) ts" and "\<forall>u \<in> set ts. t < u"
    by auto
  with s1 Cons.IH [of s1]
  obtain s' where "update_frame_stats_calls ts s1 = Inr s'"
      "frame_count s' = frame_count s1 + int (length ts)" "length (fps_history s') \<le> 30"
    by auto
  with s1 show ?case by simp
qed

lemma temperature_window_fold:
  "length (temperature_history s) \<le> 60 \<Longrightarrow>
   length (temperature_history (fold add_temperature_reading cs s)) \<le> 60"
  by (induction cs arbitrary: s) (simp_all add: add_temperature_reading_def length_append_capped)

lemma append_capped_full:
  "length xs = cap \<Longrightarrow> 0 < cap \<Longrightarrow> append_capped cap v xs = tl xs @ [v]"
  by (cases xs) (simp_all add: append_capped_def Let_def)

lemma last_n_example: "last_n 3 [1, 2, 3, 4, 5 :: nat] = [3, 4, 5]"
  by (simp add: last_n_def)

lemma frame_rates_example: "frame_rates [10, 12, 16] = [1 / 2, 1 / 4]"
  by (simp add: frame_rates_def)

lemma append_capped_last_n:
  "0 < cap \<Longrightarrow> length xs \<le> cap \<Longrightarrow> append_capped cap v xs = last_n cap (xs @ [v])"
  by (cases xs) (auto simp: append_capped_def last_n_def Let_def Suc_diff_le)

lemma last_n_append_last_n: "last_n n (last_n n xs @ ys) = last_n n (xs @ ys)"
proof (cases "length xs \<le> n")
  case True
  then show ?thesis by (simp add: last_n_def)
next
  case False
  then have "length xs + length ys - (length xs - n + n) + (length xs - n)
      = length xs + length ys - n"
    by arith
  with False show ?thesis by (simp add: last_n_def)
qed

lemma length_last_n: "length (last_n n xs) \<le> n"
  by (simp add: last_n_def)

lemma last_n_id: "length xs \<le> n \<Longrightarrow> last_n n xs = xs"
  by (simp add: last_n_def)

lemma rates_after_Cons:
  "rates_after prev (t # ts) = (if prev > 0 then [1 / (t - prev)] else []) @ rates_after t ts"
  by (simp add: rates_after_def)

lemma rates_after_zero: "rates_after 0 ts = frame_rates ts"
  by (cases ts) (simp_all add: rates_after_def frame_rates_def)

lemma update_frame_stats_window:
  assumes "last_frame_time s \<le> 0 \<or> last_frame_time s < t"
    and "fps_history s = last_n 30 h"
  shows "\<exists>s'. update_frame_stats t s = Inr s' \<and> frame_count s' = frame_count s + 1
           \<and> last_frame_time s' = t
           \<and> fps_history s' = last_n 30 (h @ rates_after (last_frame_time s) [t])"
proof (cases "last_frame_time s > 0")
  case False
  with assms show ?thesis
    by (simp add: update_frame_stats_def rates_after_def)
next
  case True
  have "append_capped 30 (1 / (t - last_frame_time s)) (last_n 30 h)
          = last_n 30 (h @ [1 / (t - last_frame_time s)])"
    by (simp add: append_capped_last_n length_last_n last_n_append_last_n)
  with True assms show ?thesis
    by (simp add: update_frame_stats_def rates_after_def Let_def)
qed

lemma update_frame_stats_calls_window:
  assumes "sorted_wrt (<) ts"
    and "last_frame_time s \<le> 0 \<or> (\<forall>t \<in> set ts. last_frame_time s < t)"
    and "fps_history s = last_n 30 h"
  shows "\<exists>s'. update_frame_stats_calls ts s = Inr s'
           \<and> frame_count s' = frame_count s + int (length ts)
           \<and> fps_history s' = last_n 30 (h @ rates_after (last_frame_time s) ts)"
  using assms
proof (induction ts arbitrary: s h)
  case Nil
  then show ?case by (simp add: rates_after_def)
next
  case (Cons t ts)
  from Cons.prems(2) have "last_frame_time s \<le> 0 \<or> last_frame_time s < t"
    by auto
  from update_frame_stats_window [OF this Cons.prems(3)]
  obtain s1 where s1: "update_frame_stats t s = Inr s1"
      "frame_count s1 = frame_count s + 1" "last_frame_time s1 = t"
      "fps_history s1 = last_n 30 (h @ rates_after (last_frame_time s) [t])"
    by blast
  from Cons.prems(1) have "sorted_wrt (<) ts" and "last_frame_time s1 \<le> 0 \<or> (\<forall>u \<in> set ts. last_frame_time s1 < u)"
    using s1(3) by auto
  from Cons.IH [OF this s1(4)]
  obtain s' where s': "update_frame_stats_calls ts s1 = Inr s'"
      "frame_count s' = frame_count s1 + int (length ts)"
      "fps_history s' = last_n 30 ((h @ rates_after (last_frame_time s) [t]) @ rates_after (last_frame_time s1) ts)"
    by blast
  have "(h @ rates_after (last_frame_time s) [t]) @ rates_after (last_frame_time s1) ts
          = h @ rates_after (last_frame_time s) (t # ts)"
    by (simp add: rates_after_Cons s1(3) rates_after_def)
  with s1 s' show ?case by simp
qed

lemma temperature_window_content:
  assumes "temperature_history s = last_n 60 h"
  shows "temperature_history (fold add_temperature_reading cs s) = last_n 60 (h @ cs)"
  using assms
proof (induction cs arbitrary: s h)
  case Nil
  then show ?case by simp
next
  case (Cons c cs)
  have "temperature_history (add_temperature_reading c s) = last_n 60 (h @ [c])"
    by (simp add: add_temperature_reading_def Cons.prems append_capped_last_n length_last_n
          last_n_append_last_n)
  from Cons.IH [OF this] show ?case by simp
qed

text \<open>
  Claim C9. From a fresh \<^verbatim>\<open>DepthAIStats\<close>, a run of \<^verbatim>\<open>update_frame_stats\<close> calls at
  strictly increasing clock values raises nothing; after every call (every prefix of the
  run) \<open>total_frames\<close> of the snapshot is the number of calls made so far, and the rate
  window is the list of the last 30 rates computed so far, in the order they were
  computed: on overflow it is the oldest entry that goes. Likewise, after any run of
  \<^verbatim>\<open>add_temperature_reading\<close> calls the temperature window is the list of the last 60
  readings, in order.
\<close>

theorem frame_calls_counted_and_windows_keep_latest:
  assumes "sorted_wrt (<) ts" and "n \<le> length ts"
  shows "(\<exists>s'. update_frame_stats_calls (take n ts) (DepthAIStats_init t0) = Inr s'
            \<and> total_frames (get_stats now s') = int n
            \<and> fps_history s' = last_n 30 (frame_rates (take n ts))
            \<and> length (fps_history s') \<le> 30)
         \<and> temperature_history (fold add_temperature_reading cs (DepthAIStats_init t0))
              = last_n 60 cs
         \<and> length (temperature_history (fold add_temperature_reading cs (DepthAIStats_init t0)))
              \<le> 60"
proof -
  let ?s0 = "DepthAIStats_init t0"
  have srt: "sorted_wrt (<) (take n ts)"
    using assms(1) by (simp add: sorted_wrt_take)
  have l0: "last_frame_time ?s0 \<le> 0 \<or> (\<forall>t \<in> set (take n ts). last_frame_time ?s0 < t)"
    by (simp add: DepthAIStats_init_def)
  have h0: "fps_history ?s0 = last_n 30 []"
    by (simp add: DepthAIStats_init_def last_n_def)
  from update_frame_stats_calls_window [OF srt l0 h0]
  obtain s' where s': "update_frame_stats_calls (take n ts) ?s0 = Inr s'"
      "frame_count s' = frame_count ?s0 + int (length (take n ts))"
      "fps_history s' = last_n 30 ([] @ rates_after (last_frame_time ?s0) (take n ts))"
    by blast
  have "last_frame_time ?s0 = 0" "frame_count ?s0 = 0"
    by (simp_all add: DepthAIStats_init_def)
  with s' assms(2) have a: "total_frames (get_stats now s') = int n"
      and b: "fps_history s' = last_n 30 (frame_rates (take n ts))"
    by (simp_all add: get_stats_def Let_def min_def rates_after_zero)
  from b have c: "length (fps_history s') \<le> 30"
    by (simp add: length_last_n)
  have "temperature_history ?s0 = last_n 60 []"
    by (simp add: DepthAIStats_init_def last_n_def)
  from temperature_window_content [OF this, of cs]
  have d: "temperature_history (fold add_temperature_reading cs ?s0) = last_n 60 cs"
    by simp
  then have e: "length (temperature_history (fold add_temperature_reading cs ?s0)) \<le> 60"
    by (simp add: length_last_n)
  from s'(1) a b c d e show ?thesis by blast
qed

theorem frame_calls_counted_and_windows_keep_latest_witness:
  "sorted_wrt (<) [1, 2, 4 :: real] \<and> 3 \<le> length [1, 2, 4 :: real]
   \<and> (\<exists>s'. update_frame_stats_calls (take 3 [1, 2, 4]) (DepthAIStats_init 0) = Inr s'
          \<and> total_frames (get_stats 5 s') = 3
          \<and> fps_history s' = [1, 1 / 2])
   \<and> temperature_history
        (fold add_temperature_reading (map real [0..<61]) (DepthAIStats_init 0))
       = map real [1..<61]"
proof -
  have h1: "sorted_wrt (<) [1, 2, 4 :: real]"
    by simp
  have h2: "3 \<le> length [1, 2, 4 :: real]"
    by simp
  have r: "last_n 30 (frame_rates (take 3 [1, 2, 4])) = [1, 1 / 2]"
    by (simp add: last_n_def frame_rates_def)
  have t: "last_n 60 (map real [0..<61]) = map real [1..<61]"
    by (simp add: last_n_def drop_map)
  from frame_calls_counted_and_windows_keep_latest [OF h1 h2, of 0 5 "map real [0..<61]"]
  show ?thesis
    unfolding r t using h1 h2 by auto
qed

lemma update_frame_stats_same_clock:
  "last_frame_time s > 0 \<Longrightarrow> update_frame_stats (last_frame_time s) s = Inl ZeroDivisionError"
  by (simp add: update_frame_stats_def)

text \<open>
  Claim C3. Two \<^verbatim>\<open>update_frame_stats\<close> calls that read the same clock value: the second
  one divides by \<open>current_time - last_frame_time = 0\<close>. The source has no guard, so the
  call raises \<^verbatim>\<open>ZeroDivisionError\<close>: the sample is neither dropped nor recorded as rate
  zero, and the frame is not counted.
\<close>

theorem update_frame_stats_twice_same_clock_raises:
  "update_frame_stats_calls [100, 100] (DepthAIStats_init 0) = Inl ZeroDivisionError"
  by (simp add: update_frame_stats_def DepthAIStats_init_def)

text \<open>
  Claim C10. When the temperature window is empty (no reading was ever recorded: the
  window is only ever appended to and trimmed from a length above 60), the snapshot's
  \<open>average_temperature_c\<close> and \<open>current_temperature_c\<close> are \<^verbatim>\<open>None\<close>, whereas an empty
  rate window gives \<open>current_fps = 0\<close> and \<open>average_fps = 0\<close>.
\<close>

theorem get_stats_empty_windows:
  "average_temperature_c (get_stats now (s\<lparr>temperature_history := []\<rparr>)) = None
   \<and> current_temperature_c (get_stats now (s\<lparr>temperature_history := []\<rparr>)) = None
   \<and> current_fps (get_stats now (s\<lparr>fps_history := []\<rparr>)) = 0
   \<and> average_fps (get_stats now (s\<lparr>fps_history := []\<rparr>)) = 0
   \<and> average_temperature_c (get_stats now (DepthAIStats_init t0)) = None
   \<and> current_temperature_c (get_stats now (DepthAIStats_init t0)) = None"
  by (simp add: get_stats_def DepthAIStats_init_def)

lemma temperature_history_never_emptied:
  "temperature_history (add_temperature_reading c s) \<noteq> []"
  by (cases "temperature_history s")
     (simp_all add: add_temperature_reading_def append_capped_def Let_def)


subsection \<open>Health verdict\<close>

text \<open>
  Claim C7. A snapshot with \<open>total_frames = 0\<close> gets the verdict \<open>healthy\<close> with no
  issue, whatever its \<open>error_count\<close> and rates are.
\<close>

theorem check_health_no_frames:
  "total_frames stats = 0 \<Longrightarrow> check_health stats = \<lparr>status = healthy, issues = []\<rparr>"
  by (simp add: check_health_def)

theorem check_health_no_frames_witness:
  "total_frames \<lparr>uptime_seconds = 5, total_frames = 0, stat_error_count = 7,
                 current_fps = 0, average_fps = 0, stat_imu_data_count = 0,
                 average_temperature_c = None, current_temperature_c = None,
                 stat_last_frame_time = 0\<rparr> = 0
   \<and> check_health \<lparr>uptime_seconds = 5, total_frames = 0, stat_error_count = 7,
                 current_fps = 0, average_fps = 0, stat_imu_data_count = 0,
                 average_temperature_c = None, current_temperature_c = None,
                 stat_last_frame_time = 0\<rparr> = \<lparr>status = healthy, issues = []\<rparr>"
proof -
  have h: "total_frames \<lparr>uptime_seconds = 5, total_frames = 0, stat_error_count = 7,
                 current_fps = 0, average_fps = 0, stat_imu_data_count = 0,
                 average_temperature_c = None, current_temperature_c = None,
                 stat_last_frame_time = 0\<rparr> = 0"
    by simp
  from check_health_no_frames [OF h] h show ?thesis by simp
qed

text \<open>
  Claim C8. With \<open>current_fps \<ge> 1\<close>: 100 frames and 11 errors give \<open>degraded\<close> with the
  high-error-rate issue (rate 11/100); 100 frames and 9 errors give \<open>healthy\<close>. In general
  the high-error-rate issue is in the list exactly when \<open>total_frames > 0\<close> and
  \<open>error_count / total_frames > 1/10\<close>. The quotient and the bound are exact reals here;
  the source compares the rounded double quotient with the double nearest to 0.1, which
  agrees with the exact comparison for every frame count below \<open>8 * 10^15\<close>.
\<close>

theorem check_health_error_rate:
  "(1 \<le> current_fps stats \<and> total_frames stats = 100 \<and> stat_error_count stats = 11
      \<longrightarrow> check_health stats = \<lparr>status = degraded, issues = [High_error_rate (11 / 100)]\<rparr>)
   \<and> (1 \<le> current_fps stats \<and> total_frames stats = 100 \<and> stat_error_count stats = 9
      \<longrightarrow> check_health stats = \<lparr>status = healthy, issues = []\<rparr>)
   \<and> ((\<exists>r. High_error_rate r \<in> set (issues (check_health stats)))
      \<longleftrightarrow> total_frames stats > 0
          \<and> real_of_int (stat_error_count stats) / real_of_int (total_frames stats) > 1 / 10)"
  by (auto simp: check_health_def Let_def)

theorem check_health_error_rate_witness:
  "check_health \<lparr>uptime_seconds = 60, total_frames = 100, stat_error_count = 11,
                 current_fps = 30, average_fps = 30, stat_imu_data_count = 0,
                 average_temperature_c = None, current_temperature_c = None,
                 stat_last_frame_time = 60\<rparr>
     = \<lparr>status = degraded, issues = [High_error_rate (11 / 100)]\<rparr>
   \<and> check_health \<lparr>uptime_seconds = 60, total_frames = 100, stat_error_count = 9,
                 current_fps = 30, average_fps = 30, stat_imu_data_count = 0,
                 average_temperature_c = None, current_temperature_c = None,
                 stat_last_frame_time = 60\<rparr>
     = \<lparr>status = healthy, issues = []\<rparr>"
  using check_health_error_rate
          [of "\<lparr>uptime_seconds = 60, total_frames = 100, stat_error_count = 11,
                 current_fps = 30, average_fps = 30, stat_imu_data_count = 0,
                 average_temperature_c = None, current_temperature_c = None,
                 stat_last_frame_time = 60\<rparr>"]
        check_health_error_rate
          [of "\<lparr>uptime_seconds = 60, total_frames = 100, stat_error_count = 9,
                 current_fps = 30, average_fps = 30, stat_imu_data_count = 0,
                 average_temperature_c = None, current_temperature_c = None,
                 stat_last_frame_time = 60\<rparr>"]
  by simp


subsection \<open>Configuration merge\<close>

lemma merge_config_Cons:
  "merge_config result ((key, value) # items) =
     merge_config (AList.update key (merged_value (map_of result key) value) result) items"
  by (cases "map_of result key") (simp_all add: merged_value_def)

lemma map_of_merge_config:
  "distinct (map fst user) \<Longrightarrow>
   map_of (merge_config result user) k =
     (case map_of user k of None \<Rightarrow> map_of result k
      | Some v \<Rightarrow> Some (merged_value (map_of result k) v))"
proof (induction user arbitrary: result)
  case Nil
  then show ?case by simp
next
  case (Cons kv items)
  obtain key "value" where kv: "kv = (key, value)"
    by (cases kv)
  let ?r = "AList.update key (merged_value (map_of result key) value) result"
  from Cons.prems kv have notin: "map_of items key = None" and dist: "distinct (map fst items)"
    by (auto simp: map_of_eq_None_iff)
  have "map_of (merge_config result (kv # items)) k = map_of (merge_config ?r items) k"
    unfolding kv merge_config_Cons ..
  also have "\<dots> = (case map_of items k of None \<Rightarrow> map_of ?r k
                     | Some v \<Rightarrow> Some (merged_value (map_of ?r k) v))"
    by (rule Cons.IH [OF dist])
  also have "\<dots> = (case map_of (kv # items) k of None \<Rightarrow> map_of result k
                     | Some v \<Rightarrow> Some (merged_value (map_of result k) v))"
    using notin by (simp add: kv update_conv' split: option.splits)
  finally show ?case .
qed

lemma keys_merge_config:
  "fst ` set (merge_config result user) = fst ` set result \<union> fst ` set user"
proof (induction user arbitrary: result)
  case Nil
  then show ?case by simp
next
  case (Cons kv items)
  obtain key "value" where kv: "kv = (key, value)"
    by (cases kv)
  show ?case
    unfolding kv merge_config_Cons by (simp add: Cons.IH dom_update)
qed

lemma lookup_path_merge_leaf:
  "distinct_keys (JObj user) \<Longrightarrow> lookup_path (JObj user) p = Some v \<Longrightarrow> p \<noteq> []
   \<Longrightarrow> \<not> isinstance_dict v
   \<Longrightarrow> lookup_path (JObj (merge_config dflt user)) p = Some v"
proof (induction p arbitrary: user dflt)
  case Nil
  then show ?case by simp
next
  case (Cons k ks)
  from Cons.prems(2) obtain u where u: "map_of user k = Some u" "lookup_path u ks = Some v"
    by (auto split: option.splits)
  from Cons.prems(1) have dist: "distinct (map fst user)"
    by simp
  from u(1) have "(k, u) \<in> set user"
    by (rule map_of_SomeD)
  with Cons.prems(1) have du: "distinct_keys u"
    by (auto simp: list_all_iff)
  have m: "map_of (merge_config dflt user) k = Some (merged_value (map_of dflt k) u)"
    using map_of_merge_config [OF dist, of dflt k] u(1) by simp
  show ?case
  proof (cases "map_of dflt k \<noteq> None \<and> isinstance_dict (the (map_of dflt k))
                 \<and> isinstance_dict u")
    case False
    then have "merged_value (map_of dflt k) u = u"
      by (auto simp: merged_value_def)
    with m u(2) show ?thesis by simp
  next
    case True
    then obtain ud where ud: "u = JObj ud"
      by (cases u) simp_all
    from True have mv: "merged_value (map_of dflt k) u
        = JObj (merge_config (dict_items (the (map_of dflt k))) ud)"
      by (simp add: merged_value_def ud)
    from Cons.prems(4) u(2) ud have "ks \<noteq> []"
      by (cases ks) auto
    from Cons.IH [OF du [unfolded ud] u(2) [unfolded ud] this Cons.prems(4)]
    have "lookup_path (JObj (merge_config (dict_items (the (map_of dflt k))) ud)) ks = Some v" .
    with m mv show ?thesis by simp
  qed
qed

text \<open>
  Claim C5. For a user dictionary as \<^verbatim>\<open>json.load\<close> produces it (a key occurs once in a
  dictionary, at every depth) and any default dictionary: every key of the defaults is a
  key of the merged dictionary; a key the user does not give keeps the default's value; a
  key the user gives holds the recursive merge when both sides are dictionaries and the
  user's value otherwise; hence every leaf (non-dictionary value) the user gives at some
  path is the value at that path after the merge. The spec's example is the last
  conjunct.
\<close>

theorem merge_config_user_over_defaults:
  assumes "distinct_keys (JObj user)"
  shows "fst ` set dflt \<subseteq> fst ` set (merge_config dflt user)
    \<and> (\<forall>k. map_of user k = None \<longrightarrow> map_of (merge_config dflt user) k = map_of dflt k)
    \<and> (\<forall>k v. map_of user k = Some v \<longrightarrow>
          map_of (merge_config dflt user) k =
            Some (if map_of dflt k \<noteq> None \<and> isinstance_dict (the (map_of dflt k))
                     \<and> isinstance_dict v
                  then JObj (merge_config (dict_items (the (map_of dflt k))) (dict_items v))
                  else v))
    \<and> (\<forall>p v. p \<noteq> [] \<and> lookup_path (JObj user) p = Some v \<and> \<not> isinstance_dict v
          \<longrightarrow> lookup_path (JObj (merge_config dflt user)) p = Some v)
    \<and> merge_config
         [(''camera'', JObj [(''fps'', JInt 30), (''res'', JArr [JInt 1920, JInt 1080])])]
         [(''camera'', JObj [(''fps'', JInt 60)])]
       = [(''camera'', JObj [(''fps'', JInt 60), (''res'', JArr [JInt 1920, JInt 1080])])]"
proof -
  from assms have dist: "distinct (map fst user)"
    by simp
  have "fst ` set dflt \<subseteq> fst ` set (merge_config dflt user)"
    by (simp add: keys_merge_config)
  moreover have "\<forall>k. map_of user k = None \<longrightarrow> map_of (merge_config dflt user) k = map_of dflt k"
    by (simp add: map_of_merge_config [OF dist])
  moreover have "\<forall>k v. map_of user k = Some v \<longrightarrow>
          map_of (merge_config dflt user) k =
            Some (if map_of dflt k \<noteq> None \<and> isinstance_dict (the (map_of dflt k))
                     \<and> isinstance_dict v
                  then JObj (merge_config (dict_items (the (map_of dflt k))) (dict_items v))
                  else v)"
    by (simp add: map_of_merge_config [OF dist] merged_value_def)
  moreover have "\<forall>p v. p \<noteq> [] \<and> lookup_path (JObj user) p = Some v \<and> \<not> isinstance_dict v
          \<longrightarrow> lookup_path (JObj (merge_config dflt user)) p = Some v"
    using lookup_path_merge_leaf [OF assms] by blast
  moreover have "merge_config
         [(''camera'', JObj [(''fps'', JInt 30), (''res'', JArr [JInt 1920, JInt 1080])])]
         [(''camera'', JObj [(''fps'', JInt 60)])]
       = [(''camera'', JObj [(''fps'', JInt 60), (''res'', JArr [JInt 1920, JInt 1080])])]"
    by simp
  ultimately show ?thesis by blast
qed

theorem merge_config_user_over_defaults_witness:
  "distinct_keys (JObj [(''service'', JObj [(''health_check_interval'', JInt 5)]),
                        (''extra'', JBool True)])
   \<and> map_of (merge_config DEFAULT_CONFIG
               [(''service'', JObj [(''health_check_interval'', JInt 5)]),
                (''extra'', JBool True)]) ''camera''
       = map_of DEFAULT_CONFIG ''camera''
   \<and> map_of (merge_config DEFAULT_CONFIG
               [(''service'', JObj [(''health_check_interval'', JInt 5)]),
                (''extra'', JBool True)]) ''extra''
       = Some (JBool True)
   \<and> lookup_path (JObj (merge_config DEFAULT_CONFIG
               [(''service'', JObj [(''health_check_interval'', JInt 5)]),
                (''extra'', JBool True)])) [''service'', ''health_check_interval'']
       = Some (JInt 5)"
proof -
  let ?user = "[(''service'', JObj [(''health_check_interval'', JInt 5)]),
                (''extra'', JBool True)]"
  have h: "distinct_keys (JObj ?user)"
    by simp
  have a: "map_of ?user ''camera'' = None"
    by simp
  have b: "map_of ?user ''extra'' = Some (JBool True)"
    by simp
  have c: "[''service'', ''health_check_interval''] \<noteq> []
      \<and> lookup_path (JObj ?user) [''service'', ''health_check_interval''] = Some (JInt 5)
      \<and> \<not> isinstance_dict (JInt 5)"
    by simp
  have d: "isinstance_dict (JBool True) = False"
    by simp
  note T = merge_config_user_over_defaults [OF h, of DEFAULT_CONFIG]
  have 1: "map_of (merge_config DEFAULT_CONFIG ?user) ''camera'' = map_of DEFAULT_CONFIG ''camera''"
    by (rule T [THEN conjunct2, THEN conjunct1, rule_format, OF a])
  have 2: "map_of (merge_config DEFAULT_CONFIG ?user) ''extra'' = Some (JBool True)"
    using T [THEN conjunct2, THEN conjunct2, THEN conjunct1, rule_format, OF b]
    unfolding d by simp
  have 3: "lookup_path (JObj (merge_config DEFAULT_CONFIG ?user))
             [''service'', ''health_check_interval''] = Some (JInt 5)"
    by (rule T [THEN conjunct2, THEN conjunct2, THEN conjunct2, THEN conjunct1,
                rule_format, OF c])
  from h 1 2 3 show ?thesis by blast
qed


subsection \<open>Configuration reload\<close>

lemma reload_config_keeps_monitor_reference:
  "monitor_config (health_monitor (daemon (reload_config p)))
     = monitor_config (health_monitor (daemon p))"
  by (simp add: reload_config_def DepthAIConfig_new_def Let_def split: prod.splits)

lemma reload_config_monitor_reads:
  assumes "monitor_config (health_monitor (daemon p)) < length (objects p)"
  shows "monitor_reads (reload_config p) sect key = monitor_reads p sect key"
  using assms
  by (simp add: monitor_reads_def reload_config_def DepthAIConfig_new_def Let_def nth_append
        split: prod.splits)

text \<open>
  Claim C6. A daemon is started with no configuration file (the defaults are written and
  loaded: \<open>health_check_interval = 30\<close>), the file is then changed to
  \<open>{"service": {"health_check_interval": 5}}\<close>, and \<^verbatim>\<open>_reload_config\<close> runs. The daemon's
  own reads see 5; the health monitor's \<^verbatim>\<open>self.config\<close> still refers to the object
  created at start, so its interval read sees 30.
\<close>

theorem reload_config_monitor_reads_stale_interval:
  "daemon_reads
     (reload_config
        (write_config_file ''/etc/depthai-daemon/config.json''
           (JObj [(''service'', JObj [(''health_check_interval'', JInt 5)])])
           (DepthAIDaemon_new ''/etc/depthai-daemon/config.json'' Map.empty)))
     ''service'' ''health_check_interval'' = Inr (JInt 5)
   \<and> monitor_reads
     (reload_config
        (write_config_file ''/etc/depthai-daemon/config.json''
           (JObj [(''service'', JObj [(''health_check_interval'', JInt 5)])])
           (DepthAIDaemon_new ''/etc/depthai-daemon/config.json'' Map.empty)))
     ''service'' ''health_check_interval'' = Inr (JInt 30)"
  by (simp add: reload_config_def write_config_file_def DepthAIDaemon_new_def
      DepthAIConfig_new_def load_config_def DEFAULT_CONFIG_def daemon_reads_def
      monitor_reads_def config_item_def Let_def)


subsection \<open>Supervisor loop\<close>

lemma try_body_raises:
  "\<exists>e d'. try_body imu env n d = (Raised e, n, d') \<and> running d' = running d
      \<and> stats_errors d' = stats_errors d
      \<and> count_list (log d') Creating_pipeline = Suc (count_list (log d) Creating_pipeline)
      \<and> count_list (log d') Starting_frame_processing
          = count_list (log d) Starting_frame_processing"
  by (auto simp: try_body_def create_pipeline_def features_get_def detect_device_features_def
        logs_def Let_def split: option.splits)

lemma run_loop_returns:
  "\<exists>n d'. run_loop m imu env i k d = Returned n d'
      \<and> count_list (log d') Creating_pipeline
           \<le> count_list (log d) Creating_pipeline + nat (m - k)
      \<and> count_list (log d') Starting_frame_processing
           = count_list (log d) Starting_frame_processing
      \<and> (running d \<and> k < m \<longrightarrow> k < n)"
proof (induction "nat (m - k)" arbitrary: i k d rule: less_induct)
  case less
  show ?case
  proof (cases "running d \<and> k < m")
    case False
    then show ?thesis
      by (subst run_loop.simps) auto
  next
    case True
    obtain e d' where t: "try_body imu (env i) k d = (Raised e, k, d')"
        "running d' = running d" "stats_errors d' = stats_errors d"
        "count_list (log d') Creating_pipeline = Suc (count_list (log d) Creating_pipeline)"
        "count_list (log d') Starting_frame_processing
          = count_list (log d) Starting_frame_processing"
      using try_body_raises [of imu "env i" k d] by blast
    let ?d1 = "logs (Device_error (k + 1) m) d'"
    let ?d2 = "?d1\<lparr>stats_errors := stats_errors ?d1 + 1\<rparr>"
    let ?d3 = "signal_handler (shutdown_signal (env i)) ?d2"
    have l3: "log ?d3 = log d' @ [Device_error (k + 1) m]"
      by (simp add: signal_handler_def logs_def)
    show ?thesis
    proof (cases "k + 1 < m \<and> running ?d3")
      case False
      with True t l3 show ?thesis
        by (subst run_loop.simps) (auto simp: Let_def logs_def)
    next
      case c: True
      from True c have "nat (m - (k + 1)) < nat (m - k)"
        by simp
      from less.hyps [OF this, of "Suc i" "logs Retrying ?d3"]
      obtain n d'' where r: "run_loop m imu env (Suc i) (k + 1) (logs Retrying ?d3) = Returned n d''"
          "count_list (log d'') Creating_pipeline
             \<le> count_list (log (logs Retrying ?d3)) Creating_pipeline + nat (m - (k + 1))"
          "count_list (log d'') Starting_frame_processing
             = count_list (log (logs Retrying ?d3)) Starting_frame_processing"
          "running (logs Retrying ?d3) \<and> k + 1 < m \<longrightarrow> k + 1 < n"
        by blast
      have "run_loop m imu env i k d = Returned n d''"
        using True t(1) c r(1) by (subst run_loop.simps) (simp add: Let_def)
      moreover have "running (logs Retrying ?d3)"
        using c by (simp add: logs_def)
      ultimately show ?thesis
        using r t l3 c True by (auto simp: logs_def)
    qed
  qed
qed

text \<open>
  Whatever the device and the signals do, \<^verbatim>\<open>run\<close> returns after at most
  \<open>max_attempts\<close> passes of the loop, and no pass reaches
  \<^verbatim>\<open>"Starting frame processing..."\<close>.
\<close>

lemma run_gives_up_within_max_attempts:
  "\<exists>n d'. run m imu env initial_supervisor = Returned n d'
      \<and> count_list (log d') Creating_pipeline \<le> nat m
      \<and> count_list (log d') Starting_frame_processing = 0"
proof -
  from run_loop_returns [of m imu env 0 0 initial_supervisor]
  obtain n d' where "run_loop m imu env 0 0 initial_supervisor = Returned n d'"
      "count_list (log d') Creating_pipeline \<le> nat m"
      "count_list (log d') Starting_frame_processing = 0"
    by (auto simp: initial_supervisor_def)
  then show ?thesis
    by (simp add: run_def logs_def)
qed

text \<open>
  Claim C1. With \<open>max_reconnect_attempts = 3\<close> and the default \<open>imu_enabled\<close>: the device
  refuses the first connection and accepts the second. The second pass logs
  \<open>Connected_to_device\<close>, then \<^verbatim>\<open>self.available_features\<close> becomes \<^verbatim>\<open>None\<close> and the
  \<^verbatim>\<open>.get\<close> on it raises; the \<^verbatim>\<open>except\<close> clause counts the pass as attempt 2 of 3. The
  third pass raises in \<^verbatim>\<open>_create_pipeline\<close> for the same reason, and the loop gives up
  with the counter at 3. \<open>Starting_frame_processing\<close>, and with it the reset of the
  counter, is never reached.
\<close>

theorem run_connects_on_second_attempt_never_resets:
  "run 3 True (\<lambda>i. \<lparr>device_connects = (i = 1), shutdown_signal = False\<rparr>) initial_supervisor
   = Returned 3
       \<lparr>running = True, available_features = None, stats_errors = 3,
        log = [Creating_pipeline, Connecting_to_device, Device_error 1 3, Retrying,
               Creating_pipeline, Connecting_to_device, Connected_to_device,
               Device_error 2 3, Retrying,
               Creating_pipeline, Device_error 3 3,
               Max_attempts_or_shutdown, Daemon_stopped]\<rparr>"
  by (simp add: run_def run_loop.simps try_body_def create_pipeline_def features_get_def
      detect_device_features_def logs_def signal_handler_def initial_supervisor_def
      initial_features_def Let_def)


subsection \<open>Artifact retention\<close>

lemma cleanup_old_files_zero: "cleanup_old_files 0 dir fs = fs"
  by (simp add: cleanup_old_files_def slice_upto_def Let_def)

lemma glob_unlink:
  "glob_suffix dir ext (unlink f fs) =
     filter (\<lambda>g. \<not> (file_dir g = file_dir f \<and> file_name g = file_name f))
       (glob_suffix dir ext fs)"
  by (auto simp: glob_suffix_def unlink_def intro: filter_cong)

lemma glob_fold_unlink:
  "glob_suffix dir ext (fold unlink rs fs) =
     filter (\<lambda>g. \<forall>f \<in> set rs. \<not> (file_dir g = file_dir f \<and> file_name g = file_name f))
       (glob_suffix dir ext fs)"
proof (induction rs arbitrary: fs)
  case Nil
  then show ?case by simp
next
  case (Cons r rs)
  show ?case
    by (simp add: Cons.IH glob_unlink)
qed

text \<open>
  What the sweep does achieve, for the images: with a positive \<open>max_files\<close>, at most
  \<open>max_files\<close> \<^verbatim>\<open>.jpg\<close> files are left in the swept directory.
\<close>

lemma cleanup_old_files_bound:
  assumes "0 < max_files"
  shows "int (length (glob_suffix dir ''.jpg'' (cleanup_old_files max_files dir fs))) \<le> max_files"
proof -
  let ?G = "glob_suffix dir ''.jpg'' fs"
  let ?S = "sort_key ctime ?G"
  show ?thesis
  proof (cases "int (length ?S) > max_files")
    case False
    then show ?thesis
      by (simp add: cleanup_old_files_def Let_def)
  next
    case True
    let ?j = "length ?S - nat max_files"
    let ?R = "take ?j ?S"
    let ?P = "\<lambda>g. \<forall>f \<in> set ?R. \<not> (file_dir g = file_dir f \<and> file_name g = file_name f)"
    have sl: "slice_upto ?S (- max_files) = ?R"
      using True assms by (simp add: slice_upto_def Let_def nat_diff_distrib)
    have 1: "glob_suffix dir ''.jpg'' (cleanup_old_files max_files dir fs) = filter ?P ?G"
      using True by (simp add: cleanup_old_files_def Let_def sl glob_fold_unlink del: length_sort)
    have 2: "length (filter ?P ?G) = length (filter ?P ?S)"
      by (simp add: filter_sort)
    have "filter ?P ?S = filter ?P (take ?j ?S @ drop ?j ?S)"
      by (simp only: append_take_drop_id)
    then have 3: "filter ?P ?S = filter ?P (take ?j ?S) @ filter ?P (drop ?j ?S)"
      by (simp only: filter_append)
    have 4: "filter ?P (take ?j ?S) = []"
      unfolding filter_empty_conv by blast
    have 5: "length (filter ?P (drop ?j ?S)) \<le> length (drop ?j ?S)"
      by (rule length_filter_le)
    have 6: "int (length (drop ?j ?S)) \<le> max_files"
      using True assms by simp
    have "length (glob_suffix dir ''.jpg'' (cleanup_old_files max_files dir fs))
            = length (filter ?P (drop ?j ?S))"
      by (simp only: 1 2 3 4 append_Nil)
    with 5 6 show ?thesis by linarith
  qed
qed

lemma save_frame_bound:
  "0 < max_files \<Longrightarrow>
   int (length (glob_suffix dir ''.jpg'' (save_frame dir max_files ty ts k now fs))) \<le> max_files"
  by (simp add: save_frame_def Let_def cleanup_old_files_bound)

text \<open>
  When no path occurs twice, the files the sweep leaves are the \<open>max_files\<close> last ones in
  the order of creation time.
\<close>

lemma cleanup_old_files_keeps_newest:
  assumes "0 < max_files" and "distinct (map file_path fs)"
    and "int (length (glob_suffix dir ''.jpg'' fs)) > max_files"
  shows "set (glob_suffix dir ''.jpg'' (cleanup_old_files max_files dir fs))
     = set (drop (length (glob_suffix dir ''.jpg'' fs) - nat max_files)
              (sort_key ctime (glob_suffix dir ''.jpg'' fs)))"
proof -
  let ?G = "glob_suffix dir ''.jpg'' fs"
  let ?S = "sort_key ctime ?G"
  let ?j = "length ?S - nat max_files"
  let ?R = "take ?j ?S"
  let ?P = "\<lambda>g. \<forall>f \<in> set ?R. \<not> (file_dir g = file_dir f \<and> file_name g = file_name f)"
  have sl: "slice_upto ?S (- max_files) = ?R"
    using assms(1,3) by (simp add: slice_upto_def Let_def nat_diff_distrib)
  have 1: "glob_suffix dir ''.jpg'' (cleanup_old_files max_files dir fs) = filter ?P ?G"
    using assms(3) by (simp add: cleanup_old_files_def Let_def sl glob_fold_unlink del: length_sort)
  have "distinct (map file_path ?G)"
    using assms(2) unfolding glob_suffix_def by (rule distinct_map_filter)
  then have dS: "distinct (map file_path ?S)"
    by (metis distinct_map distinct_sort set_sort inj_on_cong)
  have 2: "set (filter ?P ?G) = set (filter ?P ?S)"
    by simp
  have "distinct (map file_path (take ?j ?S @ drop ?j ?S))"
    using dS by (simp only: append_take_drop_id)
  then have disj: "file_path ` set (take ?j ?S) \<inter> file_path ` set (drop ?j ?S) = {}"
    by (simp only: map_append distinct_append set_map)
  have 3: "set (filter ?P ?S) = set (drop ?j ?S)"
  proof
    show "set (filter ?P ?S) \<subseteq> set (drop ?j ?S)"
    proof
      fix g assume "g \<in> set (filter ?P ?S)"
      then have g: "g \<in> set ?S" "?P g" by auto
      from g(1) have "g \<in> set (take ?j ?S) \<or> g \<in> set (drop ?j ?S)"
        by (metis Un_iff append_take_drop_id set_append)
      with g(2) show "g \<in> set (drop ?j ?S)" by blast
    qed
    show "set (drop ?j ?S) \<subseteq> set (filter ?P ?S)"
    proof
      fix g assume g: "g \<in> set (drop ?j ?S)"
      then have "g \<in> set ?S" by (rule in_set_dropD)
      moreover have "?P g"
      proof
        fix f assume "f \<in> set ?R"
        with g disj have "file_path f \<noteq> file_path g"
          by (metis IntI empty_iff imageI)
        then show "\<not> (file_dir g = file_dir f \<and> file_name g = file_name f)"
          by (auto simp: file_path_def)
      qed
      ultimately show "g \<in> set (filter ?P ?S)" by simp
    qed
  qed
  show ?thesis
    unfolding 1 2 3 by simp
qed

lemma format_06d_one_digit: "n < 10 \<Longrightarrow> format_06d n = ''00000'' @ [''0123456789'' ! n]"
  by (simp add: format_06d_def decimal.simps eval_nat_numeral)

lemma save_frame_three_times:
  "map file_name
     (save_frame ''/tmp/depthai-frames'' 2 ''rgb'' ''20240101_120002'' 2 12
       (save_frame ''/tmp/depthai-frames'' 2 ''rgb'' ''20240101_120001'' 1 11
         (save_frame ''/tmp/depthai-frames'' 2 ''rgb'' ''20240101_120000'' 0 10 [])))
   = [''rgb_20240101_120001_000001.jpg'', ''rgb_20240101_120002_000002.jpg'']"
  by (simp add: save_frame_def cleanup_old_files_def write_file_def glob_suffix_def endswith_def
        format_06d_one_digit slice_upto_def unlink_def Let_def)

text \<open>
  Claim C4. With \<open>max_files = 5\<close> configured, eight motion packets are saved one after the
  other. All eight files are in the \<open>imu\<close> directory afterwards: \<^verbatim>\<open>_save_imu_data\<close> runs
  no sweep, and the sweep that \<^verbatim>\<open>_save_frame\<close> runs on the output directory with
  \<open>max_files = 5\<close> leaves them all in place.
\<close>

theorem save_imu_data_eight_packets_all_kept:
  "length (glob_suffix ''/tmp/depthai-frames/imu'' ''.json''
     (fold (\<lambda>(ts, now). save_imu_data ''/tmp/depthai-frames'' ts now)
        [(''20240101_120000_000001'', 1), (''20240101_120000_010001'', 2),
         (''20240101_120000_020001'', 3), (''20240101_120000_030001'', 4),
         (''20240101_120000_040001'', 5), (''20240101_120000_050001'', 6),
         (''20240101_120000_060001'', 7), (''20240101_120000_070001'', 8)] [])) = 8
   \<and> cleanup_old_files 5 ''/tmp/depthai-frames''
       (fold (\<lambda>(ts, now). save_imu_data ''/tmp/depthai-frames'' ts now)
        [(''20240101_120000_000001'', 1), (''20240101_120000_010001'', 2),
         (''20240101_120000_020001'', 3), (''20240101_120000_030001'', 4),
         (''20240101_120000_040001'', 5), (''20240101_120000_050001'', 6),
         (''20240101_120000_060001'', 7), (''20240101_120000_070001'', 8)] [])
     = fold (\<lambda>(ts, now). save_imu_data ''/tmp/depthai-frames'' ts now)
        [(''20240101_120000_000001'', 1), (''20240101_120000_010001'', 2),
         (''20240101_120000_020001'', 3), (''20240101_120000_030001'', 4),
         (''20240101_120000_040001'', 5), (''20240101_120000_050001'', 6),
         (''20240101_120000_060001'', 7), (''20240101_120000_070001'', 8)] []"
  by (simp add: save_imu_data_def write_file_def path_join_def glob_suffix_def endswith_def
        cleanup_old_files_def Let_def)


subsection \<open>Status publication\<close>

lemma sublist_concat: "x \<in> set xss \<Longrightarrow> sublist x (concat xss)"
proof -
  assume "x \<in> set xss"
  then obtain as bs where "xss = as @ x # bs"
    by (auto dest: split_list)
  then have "concat xss = concat as @ x @ concat bs"
    by simp
  then show ?thesis
    by (simp only: sublist_appendI)
qed

lemma required_keys_are_segments:
  "k \<in> set required_keys \<Longrightarrow> quoted k \<in> set (status_segments t p s h)"
  by (auto simp: required_keys_def status_segments_def)

lemma status_text_has_required_keys: "has_required_keys (status_text t p s h)"
  unfolding has_required_keys_def list_all_iff status_text_def
  by (blast intro: sublist_concat required_keys_are_segments)

lemma empty_lacks_required_keys: "\<not> has_required_keys []"
  by (simp add: has_required_keys_def required_keys_def quoted_def)

lemma write_chunks_prefix: "x \<in> set (write_chunks c cs) \<Longrightarrow> prefix x (c @ concat cs)"
proof (induction cs arbitrary: c)
  case Nil
  then show ?case by simp
next
  case (Cons a cs)
  from Cons.prems have "x = c @ a \<or> x \<in> set (write_chunks (c @ a) cs)"
    by simp
  then show ?case
  proof
    assume "x = c @ a"
    then show ?thesis by simp
  next
    assume "x \<in> set (write_chunks (c @ a) cs)"
    then have "prefix x ((c @ a) @ concat cs)"
      by (rule Cons.IH)
    then show ?thesis by simp
  qed
qed

lemma last_write_chunks: "last (c # write_chunks c cs) = c @ concat cs"
  by (induction cs arbitrary: c) simp_all

text \<open>
  Claim C2, as stated, fails: the first contents a reader can find during a publication
  are those of the truncated file, which holds none of the keys.
\<close>

theorem update_status_reader_sees_truncated_file:
  "\<not> list_all has_required_keys
       (update_status
          (Some (status_text (quoted ''2024-01-01T12:00:00'') ''4242'' ''{}'' ''{}''))
          [status_text (quoted ''2024-01-01T12:00:30'') ''4242'' ''{}'' ''{}''])"
  by (simp add: update_status_def open_w_def empty_lacks_required_keys)

text \<open>
  Claim C2, amended. A publication rewrites the status file in place: the file is empty
  first (and so lacks the required keys), every contents it has during the publication
  is a prefix of the document, and once the write has completed it holds the whole
  document, with every required top-level key.
\<close>

theorem update_status_writes_in_place:
  assumes "concat chunks = status_text t p s h"
  shows "hd (update_status old chunks) = []
     \<and> \<not> has_required_keys (hd (update_status old chunks))
     \<and> last (update_status old chunks) = status_text t p s h
     \<and> has_required_keys (last (update_status old chunks))
     \<and> (\<forall>c \<in> set (update_status old chunks). prefix c (status_text t p s h))"
  using assms
  by (auto simp: update_status_def open_w_def Let_def empty_lacks_required_keys
        last_write_chunks status_text_has_required_keys
        simp del: last.simps dest: write_chunks_prefix)

theorem update_status_writes_in_place_witness:
  "concat [''{'', drop 1 (status_text (quoted ''2024-01-01T12:00:30'') ''4242'' ''{}'' ''{}'')]
     = status_text (quoted ''2024-01-01T12:00:30'') ''4242'' ''{}'' ''{}''
   \<and> \<not> has_required_keys
        (hd (update_status None
               [''{'', drop 1 (status_text (quoted ''2024-01-01T12:00:30'') ''4242'' ''{}'' ''{}'')]))
   \<and> has_required_keys
        (last (update_status None
               [''{'', drop 1 (status_text (quoted ''2024-01-01T12:00:30'') ''4242'' ''{}'' ''{}'')]))"
proof -
  have h: "concat [''{'', drop 1 (status_text (quoted ''2024-01-01T12:00:30'') ''4242'' ''{}'' ''{}'')]
     = status_text (quoted ''2024-01-01T12:00:30'') ''4242'' ''{}'' ''{}''"
    by (simp add: status_text_def status_segments_def)
  from update_status_writes_in_place [OF h, of None] h show ?thesis
    by blast
qed

end
